theory Spec2Isabelle
  imports Main "HOL-Library.AList"
begin

section \<open>Values that travel over the transport\<close>

text \<open>
  The server (\<^verbatim>\<open>src/server.js\<close>) keeps one process-wide object \<^verbatim>\<open>rooms\<close> and reacts to
  four events of a socket: \<^verbatim>\<open>create-room\<close>, \<^verbatim>\<open>join-room\<close>, \<^verbatim>\<open>action\<close> and
  \<^verbatim>\<open>disconnect\<close>. Event arguments are whatever the client sent: values read from JSON,
  or \<^verbatim>\<open>undefined\<close> when the client sent no argument. Strings are modelled with their
  ASCII characters; numbers are the integers that a double holds exactly and prints in
  plain decimal notation (magnitude below \<open>2^53\<close>). An object is the association list of
  its own properties (the first binding of a name is the property's value).
\<close>

datatype jsval =
    JUndefined
  | JNull
  | JBool bool
  | JNum int
  | JStr string
  | JArr "jsval list"
  | JObj "(string \<times> jsval) list"

datatype js_error = TypeError

type_synonym sid = string

datatype role = White | Black

subsection \<open>Coercions of the language\<close>

text \<open>The operand test of \<^verbatim>\<open>x || y\<close> and \<^verbatim>\<open>!x\<close>: the falsy values.\<close>

fun truthy :: "jsval \<Rightarrow> bool" where
  "truthy JUndefined = False"
| "truthy JNull = False"
| "truthy (JBool b) = b"
| "truthy (JNum n) = (n \<noteq> 0)"
| "truthy (JStr s) = (s \<noteq> [])"
| "truthy (JArr xs) = True"
| "truthy (JObj kvs) = True"

definition digit_char :: "nat \<Rightarrow> char" where
  "digit_char n = ''0123456789'' ! n"

fun digits10 :: "nat \<Rightarrow> string" where
  "digits10 n = (if n < 10 then [digit_char n] else digits10 (n div 10) @ [digit_char (n mod 10)])"

declare digits10.simps [simp del]

definition NumberToString :: "int \<Rightarrow> string" where
  "NumberToString i = (if i < 0 then CHR ''-'' # digits10 (nat (- i)) else digits10 (nat i))"

text \<open>
  \<^verbatim>\<open>Array.prototype.join\<close> with the separator \<^verbatim>\<open>","\<close>, over elements already converted;
  a conversion that threw makes the whole join throw.
\<close>

fun join_comma :: "(js_error + string) list \<Rightarrow> js_error + string" where
  "join_comma [] = Inr []"
| "join_comma [x] = x"
| "join_comma (x # y # ys) =
     (case x of Inl e \<Rightarrow> Inl e
      | Inr s \<Rightarrow> (case join_comma (y # ys) of Inl e \<Rightarrow> Inl e | Inr t \<Rightarrow> Inr (s @ '','' @ t)))"

text \<open>
  \<^verbatim>\<open>String(v)\<close>. An array joins its elements, \<^verbatim>\<open>undefined\<close> and \<^verbatim>\<open>null\<close> elements
  printing as the empty string. An object is converted by its \<^verbatim>\<open>toString\<close> method: the
  inherited one answers \<^verbatim>\<open>"[object Object]"\<close>; an own property of that name read from
  JSON is not callable, the inherited \<^verbatim>\<open>valueOf\<close> returns the object itself, and the
  conversion throws a TypeError.
\<close>

fun ToString :: "jsval \<Rightarrow> js_error + string" where
  "ToString JUndefined = Inr ''undefined''"
| "ToString JNull = Inr ''null''"
| "ToString (JBool b) = Inr (if b then ''true'' else ''false'')"
| "ToString (JNum n) = Inr (NumberToString n)"
| "ToString (JStr s) = Inr s"
| "ToString (JArr xs) =
     join_comma (map (\<lambda>x. if x = JUndefined \<or> x = JNull then Inr [] else ToString x) xs)"
| "ToString (JObj kvs) =
     (if ''toString'' \<in> fst ` set kvs then Inl TypeError else Inr ''[object Object]'')"

text \<open>
  Reading a property \<^verbatim>\<open>v.name\<close> of a value that is neither \<^verbatim>\<open>undefined\<close> nor \<^verbatim>\<open>null\<close>,
  for the three names the server reads (\<^verbatim>\<open>roomCode\<close>, \<^verbatim>\<open>action\<close>, \<^verbatim>\<open>type\<close>): none of them
  is inherited, so only an object's own property answers.
\<close>

fun get_prop :: "jsval \<Rightarrow> string \<Rightarrow> jsval" where
  "get_prop (JObj kvs) k = (case map_of kvs k of Some v \<Rightarrow> v | None \<Rightarrow> JUndefined)"
| "get_prop v k = JUndefined"

text \<open>\<^verbatim>\<open>String.prototype.trim\<close> and \<^verbatim>\<open>toUpperCase\<close> on ASCII strings.\<close>

definition is_space :: "char \<Rightarrow> bool" where
  "is_space c = (c \<in> set [CHR 0x09, CHR 0x0A, CHR 0x0B, CHR 0x0C, CHR 0x0D, CHR '' ''])"

definition trim :: "string \<Rightarrow> string" where
  "trim s = rev (dropWhile is_space (rev (dropWhile is_space s)))"

definition upper_char :: "char \<Rightarrow> char" where
  "upper_char c =
     (case map_of (zip ''abcdefghijklmnopqrstuvwxyz'' ''ABCDEFGHIJKLMNOPQRSTUVWXYZ'') c of
        Some u \<Rightarrow> u
      | None \<Rightarrow> c)"

definition toUpperCase :: "string \<Rightarrow> string" where
  "toUpperCase s = map upper_char s"

text \<open>\<^verbatim>\<open>String(code || "").trim().toUpperCase()\<close>, lines 64 and 92.\<close>

definition norm_code :: "jsval \<Rightarrow> js_error + string" where
  "norm_code v =
     (case ToString (if truthy v then v else JStr []) of
        Inl e \<Rightarrow> Inl e
      | Inr s \<Rightarrow> Inr (toUpperCase (trim s)))"

section \<open>The registry and the transport's channels\<close>

text \<open>
  A JavaScript object with string keys is an association list in insertion order:
  assigning to a present key keeps its place, assigning to a new key appends, and
  \<^verbatim>\<open>delete\<close> removes the entry (\<open>AList.update\<close>, \<open>AList.delete\<close>).
\<close>

record room =
  hostId :: sid
  players :: "sid list"
  roles :: "(sid \<times> role) list"

text \<open>
  Beside \<^verbatim>\<open>rooms\<close>, the state holds what \<^verbatim>\<open>socket.join\<close> changes: the transport's
  table of which socket is in which channel. A connected socket is in the channel named
  by its own id; \<^verbatim>\<open>io.to(name).emit\<close> reaches the sockets in channel \<^verbatim>\<open>name\<close>.
\<close>

record state =
  rooms :: "(string \<times> room) list"
  channels :: "(string \<times> sid) list"

datatype msg =
    RoomCreated string role
  | RoomJoined string role
  | OpponentJoined string
  | RoomReady string "(sid \<times> role) list"
  | RoomError string
  | RolesUpdated string "(sid \<times> role) list"
  | ActionMsg jsval
  | OpponentLeft string

text \<open>
  The three ways the server addresses a message: \<^verbatim>\<open>socket.emit\<close> (that socket),
  \<^verbatim>\<open>io.to(name).emit\<close> (the channel) and \<^verbatim>\<open>socket.to(name).emit\<close> (the channel but
  for the sending socket).
\<close>

datatype target =
    ToSocket sid
  | ToChannel string
  | ToChannelExcept string sid

type_synonym emission = "target \<times> msg"

definition socket_join :: "state \<Rightarrow> sid \<Rightarrow> string \<Rightarrow> state" where
  "socket_join st s ch = st\<lparr>channels := List.insert (ch, s) (channels st)\<rparr>"

definition socket_leave_all :: "state \<Rightarrow> sid \<Rightarrow> state" where
  "socket_leave_all st s = st\<lparr>channels := filter (\<lambda>(ch, s'). s' \<noteq> s) (channels st)\<rparr>"

fun reaches :: "state \<Rightarrow> target \<Rightarrow> sid \<Rightarrow> bool" where
  "reaches st (ToSocket s) s' = (s' = s)"
| "reaches st (ToChannel ch) s' = ((ch, s') \<in> set (channels st))"
| "reaches st (ToChannelExcept ch s) s' = ((ch, s') \<in> set (channels st) \<and> s' \<noteq> s)"

text \<open>What socket \<open>s\<close> receives of the emissions \<open>out\<close>, in order.\<close>

definition inbox :: "state \<Rightarrow> emission list \<Rightarrow> sid \<Rightarrow> msg list" where
  "inbox st out s = map snd (filter (\<lambda>(t, m). reaches st t s) out)"

section \<open>The helpers of the server\<close>

text \<open>
  \<^verbatim>\<open>Math.random().toString(36)\<close> is represented by the string it returns: \<^verbatim>\<open>"0"\<close> for
  the number 0, and otherwise \<^verbatim>\<open>"0."\<close> followed by the base-36 digits of the fraction,
  of which there is at least one and the last is not \<^verbatim>\<open>0\<close> (0.5 prints as \<^verbatim>\<open>"0.i"\<close>).
\<close>

definition is_digit36 :: "char \<Rightarrow> bool" where
  "is_digit36 c = (c \<in> set ''0123456789abcdefghijklmnopqrstuvwxyz'')"

definition is_random36 :: "string \<Rightarrow> bool" where
  "is_random36 r =
     (r = ''0'' \<or>
      (take 2 r = ''0.'' \<and> drop 2 r \<noteq> [] \<and> list_all is_digit36 (drop 2 r) \<and> last r \<noteq> CHR ''0''))"

text \<open>\<^verbatim>\<open>s.slice(a, b)\<close> for \<open>0 \<le> a \<le> b\<close>.\<close>

definition slice :: "nat \<Rightarrow> nat \<Rightarrow> string \<Rightarrow> string" where
  "slice a b s = take (b - a) (drop a s)"

definition makeCode :: "nat \<Rightarrow> string \<Rightarrow> string" where
  "makeCode len r = toUpperCase (slice 2 (2 + len) r)"

text \<open>
  \<^verbatim>\<open>Object.keys(rooms)\<close> lists the keys that are array indices first, in ascending
  numeric order, and the other keys after them in insertion order. A code such as
  \<^verbatim>\<open>"1234"\<close> or \<^verbatim>\<open>"7"\<close> is an array index; \<^verbatim>\<open>"0123"\<close>, \<^verbatim>\<open>"AB3K"\<close> and \<^verbatim>\<open>""\<close> are not.
\<close>

definition is_digit10 :: "char \<Rightarrow> bool" where
  "is_digit10 c = (c \<in> set ''0123456789'')"

definition digit_val :: "char \<Rightarrow> nat" where
  "digit_val c = length (takeWhile (\<lambda>d. d \<noteq> c) ''0123456789'')"

definition dec_val :: "string \<Rightarrow> nat" where
  "dec_val s = foldl (\<lambda>n c. 10 * n + digit_val c) 0 s"

definition is_array_index :: "string \<Rightarrow> bool" where
  "is_array_index k =
     (k \<noteq> [] \<and> list_all is_digit10 k \<and> (k = ''0'' \<or> hd k \<noteq> CHR ''0'') \<and> dec_val k < 2 ^ 32 - 1)"

definition object_keys :: "(string \<times> 'a) list \<Rightarrow> string list" where
  "object_keys kvs =
     sort_key dec_val (filter is_array_index (map fst kvs)) @
     filter (\<lambda>k. \<not> is_array_index k) (map fst kvs)"

text \<open>\<^verbatim>\<open>getRoomOfSocket\<close>, lines 22 to 27; \<open>None\<close> is \<^verbatim>\<open>null\<close>.\<close>

definition getRoomOfSocket :: "(string \<times> room) list \<Rightarrow> sid \<Rightarrow> string option" where
  "getRoomOfSocket rs socketId =
     List.find (\<lambda>code. case map_of rs code of Some r \<Rightarrow> socketId \<in> set (players r) | None \<Rightarrow> False)
       (object_keys rs)"

text \<open>
  \<^verbatim>\<open>swapRoomRoles\<close>, lines 29 to 41. A role that is not \<^verbatim>\<open>"white"\<close> (a missing one
  included) becomes \<^verbatim>\<open>"white"\<close>. The result is the changed registry and the room's roles
  object; \<open>None\<close> is \<^verbatim>\<open>null\<close>.
\<close>

definition flip_role :: "role option \<Rightarrow> role" where
  "flip_role v = (if v = Some White then Black else White)"

definition swapRoomRoles ::
  "(string \<times> room) list \<Rightarrow> string \<Rightarrow> ((string \<times> room) list \<times> (sid \<times> role) list) option" where
  "swapRoomRoles rs code =
     (case map_of rs code of
        None \<Rightarrow> None
      | Some room \<Rightarrow>
          (case players room of
             [a, b] \<Rightarrow>
               let r1 = AList.update a (flip_role (map_of (roles room) a)) (roles room);
                   r2 = AList.update b (flip_role (map_of r1 b)) r1
               in Some (AList.update code (room\<lparr>roles := r2\<rparr>) rs, r2)
           | _ \<Rightarrow> None))"

section \<open>The event handlers\<close>

text \<open>
  The retry loop of \<^verbatim>\<open>create-room\<close>, lines 48 and 49, over the successive results of
  \<^verbatim>\<open>Math.random().toString(36)\<close>. The loop has no bound; \<open>None\<close> says that every draw
  supplied gave a code in use, so that the loop was still running when they ended.
\<close>

fun pick_code :: "(string \<times> room) list \<Rightarrow> string list \<Rightarrow> string option" where
  "pick_code rs [] = None"
| "pick_code rs (r # later) =
     (let code = makeCode 4 r
      in if map_of rs code \<noteq> None then pick_code rs later else Some code)"

definition create_room :: "state \<Rightarrow> sid \<Rightarrow> string list \<Rightarrow> (state \<times> emission list) option" where
  "create_room st s draws =
     (case pick_code (rooms st) draws of
        None \<Rightarrow> None
      | Some code \<Rightarrow>
          let new = \<lparr>hostId = s, players = [s], roles = [(s, White)]\<rparr>;
              st1 = st\<lparr>rooms := AList.update code new (rooms st)\<rparr>;
              st2 = socket_join st1 s code
          in Some (st2, [(ToSocket s, RoomCreated code White)]))"

definition join_room :: "state \<Rightarrow> sid \<Rightarrow> jsval \<Rightarrow> js_error + (state \<times> emission list)" where
  "join_room st s payload =
     (case norm_code payload of
        Inl e \<Rightarrow> Inl e
      | Inr code \<Rightarrow>
          (case map_of (rooms st) code of
             None \<Rightarrow> Inr (st, [(ToSocket s, RoomError ''Room unavailable'')])
           | Some r \<Rightarrow>
               if length (players r) \<ge> 2
               then Inr (st, [(ToSocket s, RoomError ''Room unavailable'')])
               else
                 let r' = r\<lparr>players := players r @ [s],
                            roles := AList.update s Black (roles r)\<rparr>;
                     st1 = st\<lparr>rooms := AList.update code r' (rooms st)\<rparr>;
                     st2 = socket_join st1 s code
                 in Inr (st2,
                      [(ToSocket s, RoomJoined code Black),
                       (ToChannel (hostId r'), OpponentJoined code),
                       (ToChannel code, RoomReady code (roles r'))])))"

definition restart :: jsval where
  "restart = JObj [(''type'', JStr ''restart'')]"

text \<open>
  The \<^verbatim>\<open>action\<close> handler, lines 91 to 116. Its parameter is destructured, which throws
  a TypeError when the argument is \<^verbatim>\<open>undefined\<close> or \<^verbatim>\<open>null\<close>; \<^verbatim>\<open>action?.type\<close> is
  \<^verbatim>\<open>undefined\<close> when \<^verbatim>\<open>action\<close> is.
\<close>

definition action_type :: "jsval \<Rightarrow> jsval" where
  "action_type act = (if act = JUndefined \<or> act = JNull then JUndefined else get_prop act ''type'')"

definition action :: "state \<Rightarrow> sid \<Rightarrow> jsval \<Rightarrow> js_error + (state \<times> emission list)" where
  "action st s payload =
     (if payload = JUndefined \<or> payload = JNull then Inl TypeError
      else
        let act = get_prop payload ''action'' in
        (case norm_code (get_prop payload ''roomCode'') of
           Inl e \<Rightarrow> Inl e
         | Inr roomCode \<Rightarrow>
             (case map_of (rooms st) roomCode of
                None \<Rightarrow> Inr (st, [])
              | Some r \<Rightarrow>
                  if s \<notin> set (players r) then Inr (st, [])
                  else if action_type act = JStr ''swap-sides'' then
                    (case swapRoomRoles (rooms st) roomCode of
                       None \<Rightarrow> Inr (st, [(ToChannel s, RoomError ''Need 2 players to swap sides'')])
                     | Some (rs', rl) \<Rightarrow>
                         Inr (st\<lparr>rooms := rs'\<rparr>,
                           [(ToChannel roomCode, RolesUpdated roomCode rl),
                            (ToChannel roomCode, ActionMsg restart)]))
                  else Inr (st, [(ToChannel roomCode, ActionMsg act)]))))"

text \<open>
  The \<^verbatim>\<open>disconnect\<close> handler, lines 118 to 142. The transport has taken the socket out
  of every channel before the handler runs. \<^verbatim>\<open>if (!code) return\<close> returns for \<^verbatim>\<open>null\<close>
  and for the empty string. The room looked up under a key that \<^verbatim>\<open>getRoomOfSocket\<close>
  returned is always there; the model's branch for a missing one changes nothing.
\<close>

definition disconnect :: "state \<Rightarrow> sid \<Rightarrow> state \<times> emission list" where
  "disconnect st0 s =
     (let st = socket_leave_all st0 s in
      case getRoomOfSocket (rooms st) s of
        None \<Rightarrow> (st, [])
      | Some code \<Rightarrow>
          if code = [] then (st, [])
          else
            (case map_of (rooms st) code of
               None \<Rightarrow> (st, [])
             | Some r \<Rightarrow>
                 let ps = filter (\<lambda>p. p \<noteq> s) (players r);
                     r1 = r\<lparr>players := ps, roles := AList.delete s (roles r)\<rparr>;
                     out = [(ToChannelExcept code s, OpponentLeft code)]
                 in if length ps = 0
                    then (st\<lparr>rooms := AList.delete code (rooms st)\<rparr>, out)
                    else
                      (st\<lparr>rooms :=
                          AList.update code
                            (r1\<lparr>hostId := (if hostId r1 = s then hd ps else hostId r1)\<rparr>)
                            (rooms st)\<rparr>,
                       out)))"

section \<open>Runs of the server\<close>

text \<open>
  A run is a sequence of events from the transport, starting with no room and no
  socket. A socket connects under a 20-character id that names no connected socket and
  no player of a room (ids are generated afresh), and sends events only while it is
  connected. A run stops (\<open>None\<close>) at an event that cannot occur, at a handler that
  throws, and at a \<^verbatim>\<open>create-room\<close> whose draws all collide.
\<close>

datatype event =
    Connect sid
  | CreateRoom sid "string list"
  | JoinRoom sid jsval
  | Action sid jsval
  | Disconnect sid

definition init :: state where
  "init = \<lparr>rooms = [], channels = []\<rparr>"

definition connected :: "state \<Rightarrow> sid \<Rightarrow> bool" where
  "connected st s = ((s, s) \<in> set (channels st))"

definition is_player :: "state \<Rightarrow> sid \<Rightarrow> bool" where
  "is_player st s = list_ex (\<lambda>(c, r). s \<in> set (players r)) (rooms st)"

fun step :: "state \<Rightarrow> event \<Rightarrow> state option" where
  "step st (Connect s) =
     (if length s = 20 \<and> \<not> connected st s \<and> \<not> is_player st s
      then Some (socket_join st s s) else None)"
| "step st (CreateRoom s draws) =
     (if connected st s then map_option fst (create_room st s draws) else None)"
| "step st (JoinRoom s v) =
     (if connected st s
      then (case join_room st s v of Inl e \<Rightarrow> None | Inr (st', out) \<Rightarrow> Some st')
      else None)"
| "step st (Action s v) =
     (if connected st s
      then (case action st s v of Inl e \<Rightarrow> None | Inr (st', out) \<Rightarrow> Some st')
      else None)"
| "step st (Disconnect s) =
     (if connected st s then Some (fst (disconnect st s)) else None)"

fun run :: "state \<Rightarrow> event list \<Rightarrow> state option" where
  "run st [] = Some st"
| "run st (e # es) = (case step st e of None \<Rightarrow> None | Some st' \<Rightarrow> run st' es)"

section \<open>Properties of rooms and of states\<close>

text \<open>
  What every room of a run satisfies: the keys of \<^verbatim>\<open>roles\<close> are the entries of
  \<^verbatim>\<open>players\<close>, no key is bound twice, \<^verbatim>\<open>players\<close> has one or two entries, and the host
  is one of them.
\<close>

definition room_ok :: "room \<Rightarrow> bool" where
  "room_ok r =
     (fst ` set (roles r) = set (players r) \<and> distinct (map fst (roles r)) \<and>
      (length (players r) = 1 \<or> length (players r) = 2) \<and> hostId r \<in> set (players r))"

text \<open>
  The state of a run: room codes have at most four characters; a socket's id has twenty,
  and a socket is in the channel of its own id and in channels named by room codes only;
  a connected socket listed in a room is in the room's channel.
\<close>

definition inv_rooms :: "state \<Rightarrow> bool" where
  "inv_rooms st = (\<forall>c r. map_of (rooms st) c = Some r \<longrightarrow> room_ok r \<and> length c \<le> 4)"

definition inv_chans :: "state \<Rightarrow> bool" where
  "inv_chans st = (\<forall>ch s. (ch, s) \<in> set (channels st) \<longrightarrow> length s = 20 \<and> (ch = s \<or> length ch \<le> 4))"

definition inv_subs :: "state \<Rightarrow> bool" where
  "inv_subs st =
     (\<forall>c r p. map_of (rooms st) c = Some r \<longrightarrow> p \<in> set (players r) \<longrightarrow> connected st p
        \<longrightarrow> (c, p) \<in> set (channels st))"

definition state_ok :: "state \<Rightarrow> bool" where
  "state_ok st = (distinct (map fst (rooms st)) \<and> inv_rooms st \<and> inv_chans st \<and> inv_subs st)"

text \<open>
  The players, each counted once, that hold a role value; and the balance the
  specification asks of a room with two players: each of the two values is held by
  exactly one player.
\<close>

definition holders :: "room \<Rightarrow> role \<Rightarrow> sid list" where
  "holders r v = filter (\<lambda>p. map_of (roles r) p = Some v) (remdups (players r))"

definition each_role_once :: "room \<Rightarrow> bool" where
  "each_role_once r = (length (holders r White) = 1 \<and> length (holders r Black) = 1)"

text \<open>The other role value.\<close>

fun opposite :: "role \<Rightarrow> role" where
  "opposite White = Black"
| "opposite Black = White"

text \<open>
  An \<^verbatim>\<open>action\<close> argument that can be destructured and whose \<^verbatim>\<open>roomCode\<close> normalizes to
  \<open>code\<close>; and one whose \<^verbatim>\<open>action.type\<close> is \<^verbatim>\<open>"swap-sides"\<close>.
\<close>

definition names_room :: "jsval \<Rightarrow> string \<Rightarrow> bool" where
  "names_room payload code =
     (payload \<noteq> JUndefined \<and> payload \<noteq> JNull \<and>
      norm_code (get_prop payload ''roomCode'') = Inr code)"

definition is_swap_sides :: "jsval \<Rightarrow> bool" where
  "is_swap_sides payload = (action_type (get_prop payload ''action'') = JStr ''swap-sides'')"

text \<open>The characters of a room code as the specification describes it.\<close>

definition is_upper_alnum :: "char \<Rightarrow> bool" where
  "is_upper_alnum c = (c \<in> set ''0123456789ABCDEFGHIJKLMNOPQRSTUVWXYZ'')"

subsection \<open>Sockets, payloads and states used as examples\<close>

definition alice :: sid where "alice = ''socket-alice-0000001''"

definition bob :: sid where "bob = ''socket-bob-000000002''"

definition carol :: sid where "carol = ''socket-carol-0000003''"

definition swap_sides :: "string \<Rightarrow> jsval" where
  "swap_sides c = JObj [(''roomCode'', JStr c), (''action'', JObj [(''type'', JStr ''swap-sides'')])]"

definition pawn_move :: jsval where
  "pawn_move = JObj [(''type'', JStr ''move''), (''from'', JStr ''e2''), (''to'', JStr ''e4'')]"

definition send_move :: "string \<Rightarrow> jsval" where
  "send_move c = JObj [(''roomCode'', JStr c), (''action'', pawn_move)]"

text \<open>
  Alice has created room \<^verbatim>\<open>AB3K\<close> (\<open>hosted\<close>); Bob has joined it (\<open>paired\<close>); the two
  have swapped sides (\<open>swapped\<close>); Alice has left the paired room (\<open>bob_alone\<close>).
\<close>

definition hosted :: state where
  "hosted =
     \<lparr>rooms = [(''AB3K'', \<lparr>hostId = alice, players = [alice], roles = [(alice, White)]\<rparr>)],
      channels = [(''AB3K'', alice), (bob, bob), (alice, alice)]\<rparr>"

definition paired :: state where
  "paired =
     \<lparr>rooms = [(''AB3K'', \<lparr>hostId = alice, players = [alice, bob],
                          roles = [(alice, White), (bob, Black)]\<rparr>)],
      channels = [(''AB3K'', bob), (''AB3K'', alice), (bob, bob), (alice, alice)]\<rparr>"

definition swapped :: state where
  "swapped =
     \<lparr>rooms = [(''AB3K'', \<lparr>hostId = alice, players = [alice, bob],
                          roles = [(alice, Black), (bob, White)]\<rparr>)],
      channels = [(''AB3K'', bob), (''AB3K'', alice), (bob, bob), (alice, alice)]\<rparr>"

definition bob_alone :: state where
  "bob_alone =
     \<lparr>rooms = [(''AB3K'', \<lparr>hostId = bob, players = [bob], roles = [(bob, Black)]\<rparr>)],
      channels = [(''AB3K'', bob), (bob, bob)]\<rparr>"

text \<open>
  Alice has created a room and joined it herself (\<open>selfjoined\<close>); Bob has created a
  room and then joined Alice's (\<open>two_rooms\<close>).
\<close>

definition selfjoined :: state where
  "selfjoined =
     \<lparr>rooms = [(''AB3K'', \<lparr>hostId = alice, players = [alice, alice], roles = [(alice, Black)]\<rparr>)],
      channels = [(''AB3K'', alice), (alice, alice)]\<rparr>"

definition two_rooms :: state where
  "two_rooms =
     \<lparr>rooms = [(''ZZ9Q'', \<lparr>hostId = bob, players = [bob], roles = [(bob, White)]\<rparr>),
               (''AB3K'', \<lparr>hostId = alice, players = [alice, bob],
                          roles = [(alice, White), (bob, Black)]\<rparr>)],
      channels = [(''AB3K'', bob), (''AB3K'', alice), (''ZZ9Q'', bob), (bob, bob), (alice, alice)]\<rparr>"

text \<open>
  Alice and Bob have swapped sides and Bob has left (\<open>left_black\<close>); Carol has then
  joined (\<open>both_black\<close>).
\<close>

definition left_black :: state where
  "left_black =
     \<lparr>rooms = [(''AB3K'', \<lparr>hostId = alice, players = [alice], roles = [(alice, Black)]\<rparr>)],
      channels = [(''AB3K'', alice), (carol, carol), (alice, alice)]\<rparr>"

definition both_black :: state where
  "both_black =
     \<lparr>rooms = [(''AB3K'', \<lparr>hostId = alice, players = [alice, carol],
                          roles = [(alice, Black), (carol, Black)]\<rparr>)],
      channels = [(''AB3K'', carol), (''AB3K'', alice), (carol, carol), (alice, alice)]\<rparr>"

section \<open>Lemmas on the handlers\<close>

lemma length_makeCode: "length (makeCode n r) \<le> n"
  by (simp add: makeCode_def toUpperCase_def slice_def)

lemma pick_code_Some:
  "pick_code rs draws = Some code \<Longrightarrow> map_of rs code = None \<and> length code \<le> 4 \<and> (\<exists>d \<in> set draws. code = makeCode 4 d)"
  by (induction draws) (auto simp: Let_def length_makeCode split: if_splits)


lemma create_room_shape:
  assumes "create_room st s draws = Some (st', out)"
  shows "\<exists>code. pick_code (rooms st) draws = Some code \<and>
           rooms st' = AList.update code \<lparr>hostId = s, players = [s], roles = [(s, White)]\<rparr> (rooms st) \<and>
           channels st' = List.insert (code, s) (channels st) \<and>
           out = [(ToSocket s, RoomCreated code White)]"
  using assms by (auto simp: create_room_def socket_join_def Let_def split: option.splits)

lemma join_room_shape:
  assumes "join_room st s v = Inr (st', out)"
  shows "(st' = st \<and> out = [(ToSocket s, RoomError ''Room unavailable'')]) \<or>
         (\<exists>code r. norm_code v = Inr code \<and> map_of (rooms st) code = Some r \<and> length (players r) < 2 \<and>
            rooms st' = AList.update code (r\<lparr>players := players r @ [s], roles := AList.update s Black (roles r)\<rparr>) (rooms st) \<and>
            channels st' = List.insert (code, s) (channels st))"
  using assms by (auto simp: join_room_def socket_join_def Let_def split: sum.splits option.splits if_splits)

lemma swapRoomRoles_shape:
  assumes "swapRoomRoles rs code = Some (rs', rl)"
  shows "\<exists>r a b. map_of rs code = Some r \<and> players r = [a, b] \<and>
           rl = AList.update b (flip_role (map_of (AList.update a (flip_role (map_of (roles r) a)) (roles r)) b))
                  (AList.update a (flip_role (map_of (roles r) a)) (roles r)) \<and>
           rs' = AList.update code (r\<lparr>roles := rl\<rparr>) rs"
  using assms by (auto simp: swapRoomRoles_def Let_def split: option.splits list.splits)

lemma action_shape:
  assumes "action st s v = Inr (st', out)"
  shows "st' = st \<or>
         (\<exists>code rs' rl. swapRoomRoles (rooms st) code = Some (rs', rl) \<and> st' = st\<lparr>rooms := rs'\<rparr>)"
  using assms unfolding action_def Let_def
  by (auto split: sum.splits option.splits if_splits)

lemma getRoomOfSocket_Some:
  assumes "getRoomOfSocket rs s = Some code"
  shows "\<exists>r. map_of rs code = Some r \<and> s \<in> set (players r)"
  using assms unfolding getRoomOfSocket_def
  by (auto simp: find_Some_iff split: option.splits)

lemma set_object_keys: "set (object_keys kvs) = fst ` set kvs"
  by (auto simp: object_keys_def)

lemma getRoomOfSocket_only:
  assumes rm: "map_of rs code = Some r" and mem: "s \<in> set (players r)"
    and only: "\<And>c r'. map_of rs c = Some r' \<Longrightarrow> s \<in> set (players r') \<Longrightarrow> c = code"
  shows "getRoomOfSocket rs s = Some code"
proof (cases "getRoomOfSocket rs s")
  case None
  from rm have "code \<in> set (object_keys rs)"
    by (auto simp: set_object_keys dest: map_of_SomeD intro: rev_image_eqI)
  with None rm mem show ?thesis
    by (auto simp: getRoomOfSocket_def find_None_iff)
next
  case (Some c)
  from getRoomOfSocket_Some [OF Some] only have "c = code" by blast
  with Some show ?thesis by simp
qed

lemma rooms_leave_all [simp]: "rooms (socket_leave_all st s) = rooms st"
  by (simp add: socket_leave_all_def)

lemma channels_leave_all [simp]:
  "channels (socket_leave_all st s) = filter (\<lambda>(ch, s'). s' \<noteq> s) (channels st)"
  by (simp add: socket_leave_all_def)

lemma disconnect_no_room:
  assumes "getRoomOfSocket (rooms st) s = None \<or> getRoomOfSocket (rooms st) s = Some []"
  shows "disconnect st s = (socket_leave_all st s, [])"
  using assms by (auto simp: disconnect_def Let_def)

lemma disconnect_room:
  assumes "getRoomOfSocket (rooms st) s = Some code" and "code \<noteq> []"
    and "map_of (rooms st) code = Some r"
  shows "disconnect st s =
           ((socket_leave_all st s)\<lparr>rooms :=
               (if filter (\<lambda>p. p \<noteq> s) (players r) = [] then AList.delete code (rooms st)
                else AList.update code
                       \<lparr>hostId = (if hostId r = s then hd (filter (\<lambda>p. p \<noteq> s) (players r)) else hostId r),
                        players = filter (\<lambda>p. p \<noteq> s) (players r),
                        roles = AList.delete s (roles r)\<rparr> (rooms st))\<rparr>,
            [(ToChannelExcept code s, OpponentLeft code)])"
  using assms by (cases r) (simp add: disconnect_def Let_def)

subsection \<open>One room after each change\<close>

lemma room_ok_new: "room_ok \<lparr>hostId = s, players = [s], roles = [(s, White)]\<rparr>"
  by (simp add: room_ok_def)

lemma room_ok_join:
  assumes "room_ok r" and "length (players r) < 2"
  shows "room_ok (r\<lparr>players := players r @ [s], roles := AList.update s Black (roles r)\<rparr>)"
  using assms by (auto simp: room_ok_def dom_update distinct_update)

lemma room_ok_roles:
  assumes "room_ok r" and "players r = [a, b]"
  shows "room_ok (r\<lparr>roles := AList.update b y (AList.update a x (roles r))\<rparr>)"
  using assms by (auto simp: room_ok_def dom_update distinct_update)

lemma keys_delete: "fst ` set (AList.delete k al) = fst ` set al - {k}"
proof -
  have "set (map fst (AList.delete k al)) = set (map fst al) - {k}"
    by (simp only: delete_keys set_removeAll)
  then show ?thesis by simp
qed

lemma room_ok_leave:
  assumes ok: "room_ok r" and mem: "s \<in> set (players r)"
    and rest: "filter (\<lambda>p. p \<noteq> s) (players r) \<noteq> []"
  shows "room_ok \<lparr>hostId = (if hostId r = s then hd (filter (\<lambda>p. p \<noteq> s) (players r)) else hostId r),
                  players = filter (\<lambda>p. p \<noteq> s) (players r),
                  roles = AList.delete s (roles r)\<rparr>"
proof -
  let ?ps = "filter (\<lambda>p. p \<noteq> s) (players r)"
  have keys: "fst ` set (AList.delete s (roles r)) = set ?ps"
    using ok by (auto simp: room_ok_def keys_delete)
  have dist: "distinct (map fst (AList.delete s (roles r)))"
    using ok by (simp add: room_ok_def distinct_delete)
  have "length ?ps < length (players r)"
    using mem by (simp add: length_filter_less)
  moreover have "length (players r) \<le> 2"
    using ok by (auto simp: room_ok_def)
  moreover have "length ?ps \<noteq> 0"
    using rest by simp
  ultimately have len: "length ?ps = 1"
    by linarith
  have "hd ?ps \<in> set ?ps"
    using rest by (rule hd_in_set)
  moreover have "hostId r \<noteq> s \<Longrightarrow> hostId r \<in> set ?ps"
    using ok by (simp add: room_ok_def)
  ultimately have host: "(if hostId r = s then hd ?ps else hostId r) \<in> set ?ps"
    by simp
  show ?thesis
    using keys dist len host by (simp add: room_ok_def)
qed

subsection \<open>The invariant along a run\<close>

lemma inv_init: "state_ok init"
  by (simp add: state_ok_def inv_rooms_def inv_chans_def inv_subs_def init_def)

lemma inv_rooms_update:
  assumes "inv_rooms st" and "room_ok r'" and "length code \<le> 4"
    and "rooms st' = AList.update code r' (rooms st)"
  shows "inv_rooms st'"
  using assms by (auto simp: inv_rooms_def update_conv')

lemma inv_rooms_delete:
  assumes "inv_rooms st" and "rooms st' = AList.delete code (rooms st)"
  shows "inv_rooms st'"
  using assms by (auto simp: inv_rooms_def delete_conv' split: if_splits)

lemma connected_length:
  assumes "inv_chans st" and "connected st s"
  shows "length s = 20"
  using assms by (auto simp: inv_chans_def connected_def)

lemma inv_chans_insert:
  assumes "inv_chans st" and "length s = 20" and "ch = s \<or> length ch \<le> 4"
    and "channels st' = List.insert (ch, s) (channels st)"
  shows "inv_chans st'"
  using assms by (auto simp: inv_chans_def)

lemma inv_chans_filter:
  assumes "inv_chans st" and "channels st' = filter P (channels st)"
  shows "inv_chans st'"
  using assms by (auto simp: inv_chans_def)

lemma connect_inv:
  assumes "state_ok st" and "step st (Connect s) = Some st'"
  shows "state_ok st'"
proof -
  from assms(2) have len: "length s = 20" and np: "\<not> is_player st s"
    and st': "st' = socket_join st s s"
    by (auto split: if_splits)
  have r: "rooms st' = rooms st" and c: "channels st' = List.insert (s, s) (channels st)"
    by (simp_all add: st' socket_join_def)
  have "inv_chans st'"
    using assms(1) len c by (auto simp: state_ok_def intro: inv_chans_insert)
  moreover have "inv_rooms st'"
    using assms(1) r by (simp add: state_ok_def inv_rooms_def)
  moreover have "inv_subs st'"
    unfolding inv_subs_def
  proof (intro allI impI)
    fix code r p
    assume m: "map_of (rooms st') code = Some r" and p: "p \<in> set (players r)"
      and con: "connected st' p"
    from m r have "(code, r) \<in> set (rooms st)"
      by (simp add: map_of_SomeD)
    with np p have "p \<noteq> s"
      by (auto simp: is_player_def list_ex_iff)
    with con c have "connected st p"
      by (simp add: connected_def)
    with assms(1) m p r have "(code, p) \<in> set (channels st)"
      by (simp add: state_ok_def inv_subs_def)
    then show "(code, p) \<in> set (channels st')"
      by (simp add: c)
  qed
  ultimately show ?thesis
    using assms(1) r by (simp add: state_ok_def)
qed

lemma inv_subs_step:
  assumes old: "inv_subs st"
    and con: "\<And>p. connected st' p \<Longrightarrow> connected st p \<and> keep p"
    and chn: "\<And>c p. (c, p) \<in> set (channels st) \<Longrightarrow> keep p \<Longrightarrow> (c, p) \<in> set (channels st')"
    and rms: "\<And>c r' p. map_of (rooms st') c = Some r' \<Longrightarrow> p \<in> set (players r') \<Longrightarrow> keep p \<Longrightarrow>
                (\<exists>r. map_of (rooms st) c = Some r \<and> p \<in> set (players r)) \<or> (c, p) \<in> set (channels st')"
  shows "inv_subs st'"
  unfolding inv_subs_def
proof (intro allI impI)
  fix c r' p
  assume m: "map_of (rooms st') c = Some r'" and p: "p \<in> set (players r')" and c: "connected st' p"
  from con [OF c] have cp: "connected st p" and kp: "keep p" by simp_all
  from rms [OF m p kp] show "(c, p) \<in> set (channels st')"
  proof
    assume "\<exists>r. map_of (rooms st) c = Some r \<and> p \<in> set (players r)"
    with old cp have "(c, p) \<in> set (channels st)"
      by (auto simp: inv_subs_def)
    then show ?thesis using kp by (rule chn)
  qed
qed

lemma create_inv:
  assumes i: "state_ok st" and c: "connected st s" and e: "create_room st s draws = Some (st', out)"
  shows "state_ok st'"
proof -
  from create_room_shape [OF e] obtain code where
    pk: "pick_code (rooms st) draws = Some code" and
    r: "rooms st' = AList.update code \<lparr>hostId = s, players = [s], roles = [(s, White)]\<rparr> (rooms st)" and
    ch: "channels st' = List.insert (code, s) (channels st)"
    by blast
  from pick_code_Some [OF pk] have len: "length code \<le> 4" by simp
  from i have ic: "inv_chans st" by (simp add: state_ok_def)
  have "distinct (map fst (rooms st'))"
    using i r by (simp add: state_ok_def distinct_update)
  moreover have "inv_rooms st'"
    using i r len by (auto simp: state_ok_def intro: inv_rooms_update room_ok_new)
  moreover have "inv_chans st'"
    using ic connected_length [OF ic c] len ch by (auto intro: inv_chans_insert)
  moreover have "inv_subs st'"
  proof (rule inv_subs_step [where keep = "\<lambda>p. True"])
    show "inv_subs st" using i by (simp add: state_ok_def)
  next
    fix p assume "connected st' p"
    then show "connected st p \<and> True"
      using c ch by (auto simp: connected_def)
  next
    fix c p assume "(c, p) \<in> set (channels st)"
    then show "(c, p) \<in> set (channels st')" by (simp add: ch)
  next
    fix c r' p
    assume "map_of (rooms st') c = Some r'" and "p \<in> set (players r')"
    then show "(\<exists>r. map_of (rooms st) c = Some r \<and> p \<in> set (players r)) \<or> (c, p) \<in> set (channels st')"
      by (auto simp: r ch update_conv' split: if_splits)
  qed
  ultimately show ?thesis by (simp add: state_ok_def)
qed

lemma join_inv:
  assumes i: "state_ok st" and c: "connected st s" and e: "join_room st s v = Inr (st', out)"
  shows "state_ok st'"
proof -
  from join_room_shape [OF e] show ?thesis
  proof (elim disjE exE conjE)
    assume "st' = st" with i show ?thesis by simp
  next
    fix code r
    assume m: "map_of (rooms st) code = Some r" and l: "length (players r) < 2"
      and r: "rooms st' = AList.update code (r\<lparr>players := players r @ [s], roles := AList.update s Black (roles r)\<rparr>) (rooms st)"
      and ch: "channels st' = List.insert (code, s) (channels st)"
    from i have ic: "inv_chans st" and ir: "inv_rooms st" by (simp_all add: state_ok_def)
    from ir m have ok: "room_ok r" and len: "length code \<le> 4"
      by (auto simp: inv_rooms_def)
    have "distinct (map fst (rooms st'))"
      using i r by (simp add: state_ok_def distinct_update)
    moreover have "inv_rooms st'"
      using ir r len room_ok_join [OF ok l] by (auto intro: inv_rooms_update)
    moreover have "inv_chans st'"
      using ic connected_length [OF ic c] len ch by (auto intro: inv_chans_insert)
    moreover have "inv_subs st'"
    proof (rule inv_subs_step [where keep = "\<lambda>p. True"])
      show "inv_subs st" using i by (simp add: state_ok_def)
    next
      fix p assume "connected st' p"
      then show "connected st p \<and> True"
        using c ch by (auto simp: connected_def)
    next
      fix c p assume "(c, p) \<in> set (channels st)"
      then show "(c, p) \<in> set (channels st')" by (simp add: ch)
    next
      fix c r' p
      assume "map_of (rooms st') c = Some r'" and "p \<in> set (players r')"
      then show "(\<exists>r. map_of (rooms st) c = Some r \<and> p \<in> set (players r)) \<or> (c, p) \<in> set (channels st')"
        using m by (auto simp: r ch update_conv' split: if_splits)
    qed
    ultimately show ?thesis by (simp add: state_ok_def)
  qed
qed

lemma action_inv:
  assumes i: "state_ok st" and e: "action st s v = Inr (st', out)"
  shows "state_ok st'"
proof -
  from action_shape [OF e] show ?thesis
  proof (elim disjE exE conjE)
    assume "st' = st" with i show ?thesis by simp
  next
    fix code rs' rl
    assume sw: "swapRoomRoles (rooms st) code = Some (rs', rl)" and st': "st' = st\<lparr>rooms := rs'\<rparr>"
    from swapRoomRoles_shape [OF sw] obtain r a b where
      m: "map_of (rooms st) code = Some r" and pl: "players r = [a, b]" and
      rl: "rl = AList.update b (flip_role (map_of (AList.update a (flip_role (map_of (roles r) a)) (roles r)) b))
                  (AList.update a (flip_role (map_of (roles r) a)) (roles r))" and
      rs': "rs' = AList.update code (r\<lparr>roles := rl\<rparr>) (rooms st)"
      by blast
    have r: "rooms st' = AList.update code (r\<lparr>roles := rl\<rparr>) (rooms st)"
      and ch: "channels st' = channels st"
      by (simp_all add: st' rs')
    from i have ic: "inv_chans st" and ir: "inv_rooms st" by (simp_all add: state_ok_def)
    from ir m have ok: "room_ok r" and len: "length code \<le> 4"
      by (auto simp: inv_rooms_def)
    have ok': "room_ok (r\<lparr>roles := rl\<rparr>)"
      unfolding rl using ok pl by (rule room_ok_roles)
    have "distinct (map fst (rooms st'))"
      using i r by (simp add: state_ok_def distinct_update)
    moreover have "inv_rooms st'"
      using ir ok' len r by (rule inv_rooms_update)
    moreover have "inv_chans st'"
      using ic ch by (simp add: inv_chans_def)
    moreover have "inv_subs st'"
    proof (rule inv_subs_step [where keep = "\<lambda>p. True"])
      show "inv_subs st" using i by (simp add: state_ok_def)
    next
      fix p assume "connected st' p"
      then show "connected st p \<and> True"
        using ch by (auto simp: connected_def)
    next
      fix c p assume "(c, p) \<in> set (channels st)"
      then show "(c, p) \<in> set (channels st')" by (simp add: ch)
    next
      fix c r' p
      assume "map_of (rooms st') c = Some r'" and "p \<in> set (players r')"
      then show "(\<exists>r. map_of (rooms st) c = Some r \<and> p \<in> set (players r)) \<or> (c, p) \<in> set (channels st')"
        using m by (auto simp: r ch update_conv' split: if_splits)
    qed
    ultimately show ?thesis by (simp add: state_ok_def)
  qed
qed

lemma disconnect_inv:
  assumes i: "state_ok st" and e: "disconnect st s = (st', out)"
  shows "state_ok st'"
proof -
  from i have ic: "inv_chans st" and ir: "inv_rooms st" and isb: "inv_subs st"
    and d: "distinct (map fst (rooms st))"
    by (simp_all add: state_ok_def)
  have con: "\<And>p. connected (socket_leave_all st s) p \<Longrightarrow> connected st p \<and> p \<noteq> s"
    by (auto simp: connected_def)
  have chn: "\<And>c p. (c, p) \<in> set (channels st) \<Longrightarrow> p \<noteq> s \<Longrightarrow> (c, p) \<in> set (channels (socket_leave_all st s))"
    by simp
  have ic': "inv_chans (socket_leave_all st s)"
    using ic by (auto simp: inv_chans_def)
  show ?thesis
  proof (cases "getRoomOfSocket (rooms st) s = None \<or> getRoomOfSocket (rooms st) s = Some []")
    case True
    from disconnect_no_room [OF True] e have st': "st' = socket_leave_all st s" by simp
    have "inv_subs st'"
      unfolding st'
      by (rule inv_subs_step [where keep = "\<lambda>p. p \<noteq> s", OF isb con chn]) auto
    moreover have "inv_rooms st'"
      using ir by (simp add: st' inv_rooms_def)
    ultimately show ?thesis
      using ic' d by (simp add: state_ok_def st')
  next
    case False
    then obtain code where g: "getRoomOfSocket (rooms st) s = Some code" and ne: "code \<noteq> []"
      by auto
    from getRoomOfSocket_Some [OF g] obtain r where
      m: "map_of (rooms st) code = Some r" and mem: "s \<in> set (players r)"
      by blast
    from ir m have ok: "room_ok r" and len: "length code \<le> 4"
      by (auto simp: inv_rooms_def)
    let ?ps = "filter (\<lambda>p. p \<noteq> s) (players r)"
    let ?r' = "\<lparr>hostId = (if hostId r = s then hd ?ps else hostId r), players = ?ps,
               roles = AList.delete s (roles r)\<rparr>"
    from disconnect_room [OF g ne m] e have
      st': "st' = (socket_leave_all st s)\<lparr>rooms :=
               (if ?ps = [] then AList.delete code (rooms st) else AList.update code ?r' (rooms st))\<rparr>"
      by simp
    have ch: "channels st' = channels (socket_leave_all st s)"
      by (simp add: st')
    have rm: "rooms st' = (if ?ps = [] then AList.delete code (rooms st) else AList.update code ?r' (rooms st))"
      by (simp add: st')
    have "distinct (map fst (rooms st'))"
      using d by (simp add: rm distinct_update distinct_delete)
    moreover have "inv_rooms st'"
    proof (cases "?ps = []")
      case True
      then show ?thesis using ir rm by (auto intro: inv_rooms_delete)
    next
      case False
      then have "rooms st' = AList.update code ?r' (rooms st)" using rm by simp
      with ir room_ok_leave [OF ok mem False] len show ?thesis
        by (auto intro: inv_rooms_update)
    qed
    moreover have "inv_chans st'"
      using ic' unfolding inv_chans_def ch by blast
    moreover have "inv_subs st'"
    proof (rule inv_subs_step [where keep = "\<lambda>p. p \<noteq> s", OF isb])
      fix p assume "connected st' p"
      then have "connected (socket_leave_all st s) p"
        by (simp add: connected_def ch)
      then show "connected st p \<and> p \<noteq> s" by (rule con)
    next
      fix c p assume "(c, p) \<in> set (channels st)" and "p \<noteq> s"
      then show "(c, p) \<in> set (channels st')"
        by (simp add: ch)
    next
      fix c r' p
      assume "map_of (rooms st') c = Some r'" and "p \<in> set (players r')" and "p \<noteq> s"
      then show "(\<exists>r. map_of (rooms st) c = Some r \<and> p \<in> set (players r)) \<or> (c, p) \<in> set (channels st')"
        using m by (auto simp: rm update_conv' delete_conv' split: if_splits)
    qed
    ultimately show ?thesis by (simp add: state_ok_def)
  qed
qed

lemma step_inv:
  assumes "state_ok st" and "step st e = Some st'"
  shows "state_ok st'"
proof (cases e)
  case (Connect s)
  with assms show ?thesis by (auto intro: connect_inv)
next
  case (CreateRoom s draws)
  with assms show ?thesis
    by (auto split: if_splits intro: create_inv)
next
  case (JoinRoom s v)
  with assms show ?thesis
    by (auto split: if_splits sum.splits intro: join_inv)
next
  case (Action s v)
  with assms show ?thesis
    by (auto split: if_splits sum.splits intro: action_inv)
next
  case (Disconnect s)
  have "disconnect st s = (fst (disconnect st s), snd (disconnect st s))"
    by simp
  with assms(1) have "state_ok (fst (disconnect st s))"
    by (rule disconnect_inv)
  with assms(2) Disconnect show ?thesis
    by (auto split: if_splits)
qed

lemma run_inv:
  assumes "state_ok st" and "run st es = Some st'"
  shows "state_ok st'"
  using assms
proof (induction es arbitrary: st)
  case Nil
  then show ?case by simp
next
  case (Cons e es)
  then show ?case
    by (auto split: option.splits dest: step_inv)
qed

lemma reachable_inv: "run init es = Some st \<Longrightarrow> state_ok st"
  using inv_init by (rule run_inv)

lemma reachable_room:
  assumes "run init evs = Some st" and "(code, r) \<in> set (rooms st)"
  shows "map_of (rooms st) code = Some r \<and> room_ok r"
proof -
  from reachable_inv [OF assms(1)] have d: "distinct (map fst (rooms st))" and ir: "inv_rooms st"
    by (simp_all add: state_ok_def)
  from d assms(2) have "map_of (rooms st) code = Some r" by simp
  with ir show ?thesis by (simp add: inv_rooms_def)
qed

subsection \<open>Delivery\<close>


lemma inbox_socket:
  "inbox st [(ToSocket s, m)] p = (if p = s then [m] else [])"
  by (simp add: inbox_def)

lemma inbox_channel:
  "inbox st [(ToChannel ch, m)] p = (if (ch, p) \<in> set (channels st) then [m] else [])"
  by (simp add: inbox_def)

lemma inbox_except:
  "inbox st [(ToChannelExcept ch s, m)] p =
     (if (ch, p) \<in> set (channels st) \<and> p \<noteq> s then [m] else [])"
  by (simp add: inbox_def)

lemma own_channel:
  assumes "state_ok st" and "connected st s"
  shows "(s, p) \<in> set (channels st) \<longleftrightarrow> p = s"
proof
  assume a: "(s, p) \<in> set (channels st)"
  from assms have "length s = 20"
    by (auto simp: state_ok_def intro: connected_length)
  moreover from assms(1) a have "s = p \<or> length s \<le> 4"
    by (auto simp: state_ok_def inv_chans_def)
  ultimately show "p = s" by auto
next
  assume "p = s"
  with assms(2) show "(s, p) \<in> set (channels st)"
    by (simp add: connected_def)
qed

subsection \<open>Swapping\<close>

lemma flip_role_Some [simp]: "flip_role (Some v) = opposite v"
  by (cases v) (simp_all add: flip_role_def)

lemma opposite_opposite [simp]: "opposite (opposite v) = v"
  by (cases v) simp_all

lemma update_commute:
  assumes "k \<noteq> k'" and "k \<in> fst ` set al"
  shows "AList.update k v (AList.update k' v' al) = AList.update k' v' (AList.update k v al)"
  using assms by (induction al) auto

lemma update_back:
  assumes "map_of al a = Some x" and "map_of al b = Some y" and "a \<noteq> b"
  shows "AList.update b y (AList.update a x (AList.update b y' (AList.update a x' al))) = al"
proof -
  have "a \<in> fst ` set (AList.update a x' al)"
    by (simp add: dom_update)
  with assms(3)
  have "AList.update a x (AList.update b y' (AList.update a x' al)) =
        AList.update b y' (AList.update a x (AList.update a x' al))"
    by (rule update_commute)
  also have "\<dots> = AList.update b y' al"
    using assms(1) by (simp add: update_triv)
  finally show ?thesis
    using assms(2) by (simp add: update_triv)
qed

lemma swapRoomRoles_two:
  assumes "map_of rs code = Some r" and "players r = [a, b]" and "a \<noteq> b"
    and "map_of (roles r) a = Some ra" and "map_of (roles r) b = Some rb"
  shows "swapRoomRoles rs code =
           Some (AList.update code
                   (r\<lparr>roles := AList.update b (opposite rb) (AList.update a (opposite ra) (roles r))\<rparr>) rs,
                 AList.update b (opposite rb) (AList.update a (opposite ra) (roles r)))"
  using assms by (simp add: swapRoomRoles_def Let_def update_conv')

lemma action_swap:
  assumes "names_room payload code" and "is_swap_sides payload"
    and "map_of (rooms st) code = Some r" and "s \<in> set (players r)"
    and "swapRoomRoles (rooms st) code = Some (rs', rl)"
  shows "action st s payload =
           Inr (st\<lparr>rooms := rs'\<rparr>,
                [(ToChannel code, RolesUpdated code rl), (ToChannel code, ActionMsg restart)])"
  using assms by (simp add: action_def names_room_def is_swap_sides_def)

subsection \<open>Codes and joining\<close>

text \<open>
  A code has the characters the specification says and as many of them, up to four, as
  the draw has digits. A string padded with white space normalizes to its core in upper
  case. The coercion of a payload that is not an array or an object
  succeeds, and \<^verbatim>\<open>join-room\<close> returns whenever the coercion does. A join into a room with one player appends the joiner with
  \<^verbatim>\<open>"black"\<close>; the two roles are then balanced when the player already there is another
  socket that holds \<^verbatim>\<open>"white"\<close>.
\<close>

lemma upper_char_digit36:
  assumes "is_digit36 c"
  shows "is_upper_alnum (upper_char c)"
proof -
  from assms have "c \<in> set ''0123456789abcdefghijklmnopqrstuvwxyz''"
    by (simp add: is_digit36_def)
  then show ?thesis
    unfolding upper_char_def is_upper_alnum_def
    by (elim disjE FalseE | simp)+
qed

lemma makeCode_chars:
  assumes "is_random36 r"
  shows "length (makeCode 4 r) = min 4 (length r - 2) \<and> list_all is_upper_alnum (makeCode 4 r)"
proof -
  have len: "length (makeCode 4 r) = min 4 (length r - 2)"
    by (simp add: makeCode_def toUpperCase_def slice_def)
  from assms have "list_all is_digit36 (drop 2 r)"
    by (auto simp: is_random36_def)
  then have "list_all is_digit36 (take 4 (drop 2 r))"
    by (auto simp: list_all_iff dest: in_set_takeD)
  then have "list_all is_upper_alnum (makeCode 4 r)"
    by (auto simp: makeCode_def toUpperCase_def slice_def list_all_iff upper_char_digit36)
  with len show ?thesis by simp
qed

lemma dropWhile_spaces:
  assumes "list_all is_space l" and "list_all (\<lambda>c. \<not> is_space c) v"
  shows "dropWhile is_space (l @ v @ t) = (if v = [] then dropWhile is_space t else v @ t)"
proof -
  have "dropWhile is_space (l @ v @ t) = dropWhile is_space (v @ t)"
    using assms(1) by (simp add: list_all_iff dropWhile_append2)
  also have "\<dots> = (if v = [] then dropWhile is_space t else v @ t)"
    using assms(2) by (cases v) simp_all
  finally show ?thesis .
qed

lemma trim_padded:
  assumes l: "list_all is_space l" and t: "list_all is_space t"
    and v: "list_all (\<lambda>c. \<not> is_space c) v"
  shows "trim (l @ v @ t) = v"
proof (cases "v = []")
  case True
  have "\<forall>x \<in> set (l @ t). is_space x"
    using l t by (auto simp: list_all_iff)
  then have "dropWhile is_space (l @ t) = []"
    by (simp only: dropWhile_eq_Nil_conv)
  then have "trim (l @ [] @ t) = []"
    by (simp only: trim_def append_Nil rev.simps dropWhile.simps)
  with True show ?thesis by simp
next
  case False
  have rv: "list_all (\<lambda>c. \<not> is_space c) (rev v)" and rt: "list_all is_space (rev t)"
    using v t by (simp_all add: list_all_iff)
  have "dropWhile is_space (l @ v @ t) = v @ t"
    using dropWhile_spaces [OF l v] False by simp
  moreover have "dropWhile is_space (rev t @ rev v @ []) = rev v @ []"
    using dropWhile_spaces [OF rt rv, of "[]"] False by simp
  ultimately show ?thesis by (simp add: trim_def)
qed

lemma norm_code_padded:
  assumes "list_all is_space l" and "list_all is_space t"
    and "list_all (\<lambda>c. \<not> is_space c) v"
  shows "norm_code (JStr (l @ v @ t)) = Inr (toUpperCase v)"
proof (cases "l @ v @ t = []")
  case True
  then show ?thesis by (simp add: norm_code_def trim_def toUpperCase_def)
next
  case False
  then have "norm_code (JStr (l @ v @ t)) = Inr (toUpperCase (trim (l @ v @ t)))"
    by (simp add: norm_code_def)
  with trim_padded [OF assms] show ?thesis by simp
qed

lemma norm_code_primitive:
  assumes "v = JUndefined \<or> v = JNull \<or> (\<exists>b. v = JBool b) \<or> (\<exists>n. v = JNum n) \<or> (\<exists>s. v = JStr s)"
  shows "\<exists>code. norm_code v = Inr code"
  using assms by (auto simp: norm_code_def)

lemma join_room_returns:
  assumes "norm_code v = Inr code"
  shows "\<exists>st' out. join_room st s v = Inr (st', out)"
  using assms by (simp add: join_room_def Let_def split: option.splits)

lemma join_room_success:
  assumes "norm_code v = Inr code" and "map_of (rooms st) code = Some r" and "players r = [h]"
  shows "join_room st s v =
           Inr (socket_join
                  (st\<lparr>rooms := AList.update code
                     (r\<lparr>players := [h, s], roles := AList.update s Black (roles r)\<rparr>) (rooms st)\<rparr>)
                  s code,
                [(ToSocket s, RoomJoined code Black),
                 (ToChannel (hostId r), OpponentJoined code),
                 (ToChannel code, RoomReady code (AList.update s Black (roles r)))])"
  using assms by (simp add: join_room_def Let_def)

lemma join_room_roles:
  assumes "h \<noteq> s" and "roles r = [(h, White)]" and "players r = [h]"
  shows "each_role_once (r\<lparr>players := [h, s], roles := AList.update s Black (roles r)\<rparr>)"
  using assms by (auto simp: each_role_once_def holders_def)

subsection \<open>Example runs\<close>

lemma run_hosted:
  "run init [Connect alice, Connect bob, CreateRoom alice [''0.ab3kxyz'']] = Some hosted"
  by code_simp

lemma run_paired:
  "run init [Connect alice, Connect bob, CreateRoom alice [''0.ab3kxyz''],
             JoinRoom bob (JStr '' ab3k '')] = Some paired"
  by code_simp

text \<open>
  The room under the empty code, which the number 0 gives, outlives its only player:
  \<^verbatim>\<open>if (!code) return\<close> takes the empty string for no room.
\<close>

lemma empty_code_room_stays:
  "run init [Connect alice, CreateRoom alice [''0''], Disconnect alice] =
     Some \<lparr>rooms = [([], \<lparr>hostId = alice, players = [alice], roles = [(alice, White)]\<rparr>)],
           channels = []\<rparr>"
  by code_simp

subsection \<open>Relaying an action\<close>

text \<open>
  What the \<^verbatim>\<open>action\<close> handler does with an argument that can be destructured and whose
  \<^verbatim>\<open>roomCode\<close> normalizes, when the action's type is not \<^verbatim>\<open>swap-sides\<close>, in a state of a
  run and for a connected sender: when the named room does not exist, or does not list
  the sender, the handler emits nothing and returns the state unchanged; when the room
  lists the sender, the state is unchanged and the action is emitted as it came to the
  room's channel, so that the sender, and every connected socket listed in the room,
  receives exactly it.
\<close>

lemma relay_action:
  assumes reach: "run init evs = Some st" and con: "connected st s"
    and nm: "names_room payload code" and sw: "\<not> is_swap_sides payload"
  shows "(map_of (rooms st) code = None \<longrightarrow> action st s payload = Inr (st, [])) \<and>
         (\<forall>r. map_of (rooms st) code = Some r \<longrightarrow>
            (s \<notin> set (players r) \<longrightarrow> action st s payload = Inr (st, [])) \<and>
            (s \<in> set (players r) \<longrightarrow>
               action st s payload =
                 Inr (st, [(ToChannel code, ActionMsg (get_prop payload ''action''))]) \<and>
               inbox st [(ToChannel code, ActionMsg (get_prop payload ''action''))] s =
                 [ActionMsg (get_prop payload ''action'')] \<and>
               (\<forall>p. p \<in> set (players r) \<and> connected st p \<longrightarrow>
                  inbox st [(ToChannel code, ActionMsg (get_prop payload ''action''))] p =
                    [ActionMsg (get_prop payload ''action'')])))"
proof -
  have subs: "\<And>r p. map_of (rooms st) code = Some r \<Longrightarrow> p \<in> set (players r) \<Longrightarrow>
                connected st p \<Longrightarrow> (code, p) \<in> set (channels st)"
    using reachable_inv [OF reach] by (auto simp: state_ok_def inv_subs_def)
  show ?thesis
    using nm sw con
    by (auto simp: action_def names_room_def is_swap_sides_def inbox_channel subs)
qed

text \<open>
  Bob's move reaches Alice and Bob; his move for a room that does not exist, and his
  move for Alice's room before he has joined it, reach nobody.
\<close>

lemma relay_action_example:
  "run init [Connect alice, Connect bob, CreateRoom alice [''0.ab3kxyz''],
             JoinRoom bob (JStr '' ab3k '')] = Some paired \<and>
   action paired bob (send_move ''ab3k'') = Inr (paired, [(ToChannel ''AB3K'', ActionMsg pawn_move)]) \<and>
   inbox paired [(ToChannel ''AB3K'', ActionMsg pawn_move)] alice = [ActionMsg pawn_move] \<and>
   inbox paired [(ToChannel ''AB3K'', ActionMsg pawn_move)] bob = [ActionMsg pawn_move] \<and>
   action paired bob (send_move ''zzzz'') = Inr (paired, []) \<and>
   action hosted bob (send_move ''ab3k'') = Inr (hosted, [])"
proof -
  have cb: "connected paired bob" and ca: "connected paired alice" by code_simp+
  have ch: "connected hosted bob" by code_simp
  have n: "names_room (send_move ''ab3k'') ''AB3K''" and z: "names_room (send_move ''zzzz'') ''ZZZZ''"
    by code_simp+
  have s: "\<not> is_swap_sides (send_move ''ab3k'')" and sz: "\<not> is_swap_sides (send_move ''zzzz'')"
    by code_simp+
  have g: "get_prop (send_move ''ab3k'') ''action'' = pawn_move"
    by (simp add: send_move_def)
  have m: "map_of (rooms paired) ''AB3K'' =
             Some \<lparr>hostId = alice, players = [alice, bob], roles = [(alice, White), (bob, Black)]\<rparr>"
    and mz: "map_of (rooms paired) ''ZZZZ'' = None"
    by (simp_all add: paired_def)
  have mh: "map_of (rooms hosted) ''AB3K'' =
             Some \<lparr>hostId = alice, players = [alice], roles = [(alice, White)]\<rparr>"
    by (simp add: hosted_def)
  have ab: "bob \<noteq> alice" by code_simp
  show ?thesis
    using relay_action [OF run_paired cb n s] relay_action [OF run_paired cb z sz]
      relay_action [OF run_hosted ch n s] m mz mh ab ca cb g run_paired
    by simp
qed

section \<open>The claims\<close>

text \<open>
  C1, as amended. In every state of a run, every room has one or two entries in
  \<^verbatim>\<open>players\<close>, the keys of its \<^verbatim>\<open>roles\<close> are exactly the entries of its \<^verbatim>\<open>players\<close>, and
  every listed player holds exactly one role value. (That the two role values are held
  once each in a room with two entries is not part of the statement.)
\<close>

theorem rooms_invariant:
  assumes "run init evs = Some st" and "(code, r) \<in> set (rooms st)"
  shows "fst ` set (roles r) = set (players r) \<and>
         (length (players r) = 1 \<or> length (players r) = 2) \<and>
         (\<forall>p. p \<in> set (players r) \<longrightarrow> (\<exists>!v. (p, v) \<in> set (roles r)))"
proof -
  from reachable_room [OF assms] have ok: "room_ok r" by simp
  then have keys: "fst ` set (roles r) = set (players r)"
    and dist: "distinct (map fst (roles r))"
    and len: "length (players r) = 1 \<or> length (players r) = 2"
    by (simp_all add: room_ok_def)
  have "\<exists>!v. (p, v) \<in> set (roles r)" if "p \<in> set (players r)" for p
  proof -
    from that keys have "p \<in> fst ` set (roles r)" by simp
    then obtain v where "(p, v) \<in> set (roles r)" by auto
    moreover have "v' = v" if "(p, v') \<in> set (roles r)" for v'
      using dist that \<open>(p, v) \<in> set (roles r)\<close> by (rule eq_key_imp_eq_value)
    ultimately show ?thesis by blast
  qed
  with keys len show ?thesis by blast
qed

text \<open>The witness: the room of Alice and Bob.\<close>

theorem rooms_invariant_witness:
  "run init [Connect alice, Connect bob, CreateRoom alice [''0.ab3kxyz''],
             JoinRoom bob (JStr '' ab3k '')] = Some paired \<and>
   fst ` set [(alice, White), (bob, Black)] = set [alice, bob] \<and>
   (\<exists>!v. (bob, v) \<in> set [(alice, White), (bob, Black)])"
proof -
  have m: "(''AB3K'', \<lparr>hostId = alice, players = [alice, bob],
                       roles = [(alice, White), (bob, Black)]\<rparr>) \<in> set (rooms paired)"
    by (simp add: paired_def)
  from rooms_invariant [OF run_paired m] run_paired show ?thesis
    by simp
qed

text \<open>
  C1 as stated fails: the handler of \<^verbatim>\<open>join-room\<close> does not look whether the joiner is
  already in the room. After Alice joins the room she created, \<^verbatim>\<open>players\<close> has two
  entries, both Alice, \<^verbatim>\<open>roles\<close> holds \<^verbatim>\<open>"black"\<close> for her, and nobody holds \<^verbatim>\<open>"white"\<close>.
\<close>

theorem rooms_invariant_counterexample:
  "run init [Connect alice, CreateRoom alice [''0.ab3kxyz''], JoinRoom alice (JStr ''AB3K'')] =
     Some \<lparr>rooms = [(''AB3K'', \<lparr>hostId = alice, players = [alice, alice],
                                roles = [(alice, Black)]\<rparr>)],
           channels = [(''AB3K'', alice), (alice, alice)]\<rparr> \<and>
   holders \<lparr>hostId = alice, players = [alice, alice], roles = [(alice, Black)]\<rparr> White = [] \<and>
   \<not> each_role_once \<lparr>hostId = alice, players = [alice, alice], roles = [(alice, Black)]\<rparr>"
  by code_simp

text \<open>
  C2, as amended. In a state of a run, let a room list two different sockets, and let
  one of them send \<^verbatim>\<open>swap-sides\<close> for it. Then every role value of the room is replaced
  by the other value and nothing else in the state changes; the handler emits
  \<^verbatim>\<open>roles-updated\<close> with the new roles and then the \<^verbatim>\<open>restart\<close> action, both to the room's
  channel, and each of the two sockets that is connected receives exactly these two, in
  this order; the same action sent once more gives back the state before the first.
\<close>

theorem swap_sides_exchanges:
  assumes reach: "run init evs = Some st"
    and nm: "names_room payload code" and sw: "is_swap_sides payload"
    and rm: "map_of (rooms st) code = Some r" and pl: "players r = [a, b]" and ab: "a \<noteq> b"
    and mem: "s = a \<or> s = b"
  shows "\<exists>rl st'.
           action st s payload =
             Inr (st', [(ToChannel code, RolesUpdated code rl), (ToChannel code, ActionMsg restart)]) \<and>
           rooms st' = AList.update code (r\<lparr>roles := rl\<rparr>) (rooms st) \<and>
           channels st' = channels st \<and>
           (\<forall>p. map_of rl p = map_option opposite (map_of (roles r) p)) \<and>
           action st' s payload =
             Inr (st, [(ToChannel code, RolesUpdated code (roles r)), (ToChannel code, ActionMsg restart)]) \<and>
           (\<forall>p. (p = a \<or> p = b) \<and> connected st p \<longrightarrow>
              inbox st' [(ToChannel code, RolesUpdated code rl), (ToChannel code, ActionMsg restart)] p =
                [RolesUpdated code rl, ActionMsg restart])"
proof -
  from reachable_inv [OF reach] have ir: "inv_rooms st" and isb: "inv_subs st"
    by (simp_all add: state_ok_def)
  from ir rm have ok: "room_ok r" by (simp add: inv_rooms_def)
  then have keys: "fst ` set (roles r) = {a, b}"
    using pl by (simp add: room_ok_def)
  then obtain ra rb where ra: "map_of (roles r) a = Some ra" and rb: "map_of (roles r) b = Some rb"
    by (metis insertI1 insertI2 map_of_eq_None_iff not_Some_eq)
  define rl where "rl = AList.update b (opposite rb) (AList.update a (opposite ra) (roles r))"
  define st' where "st' = st\<lparr>rooms := AList.update code (r\<lparr>roles := rl\<rparr>) (rooms st)\<rparr>"
  have ms: "s \<in> set (players r)" using mem pl by auto
  have first: "action st s payload =
      Inr (st', [(ToChannel code, RolesUpdated code rl), (ToChannel code, ActionMsg restart)])"
    unfolding st'_def rl_def
    by (rule action_swap [OF nm sw rm ms swapRoomRoles_two [OF rm pl ab ra rb]])
  have la: "map_of rl a = Some (opposite ra)" and lb: "map_of rl b = Some (opposite rb)"
    using ab ra rb by (simp_all add: rl_def update_conv')
  have flipped: "map_of rl p = map_option opposite (map_of (roles r) p)" for p
  proof (cases "p = a \<or> p = b")
    case True
    then show ?thesis using la lb ra rb by auto
  next
    case False
    with keys have "p \<notin> fst ` set (roles r)" by simp
    then have "map_of (roles r) p = None" by (simp add: map_of_eq_None_iff)
    with False show ?thesis by (simp add: rl_def update_conv')
  qed
  have rm': "map_of (rooms st') code = Some (r\<lparr>roles := rl\<rparr>)"
    by (simp add: st'_def update_conv')
  have restore: "AList.update b (opposite (opposite rb)) (AList.update a (opposite (opposite ra)) rl) = roles r"
    unfolding rl_def opposite_opposite using ra rb ab by (rule update_back)
  have sw2: "swapRoomRoles (rooms st') code = Some (rooms st, roles r)"
  proof -
    have "swapRoomRoles (rooms st') code =
            Some (AList.update code (r\<lparr>roles := rl\<rparr>\<lparr>roles := roles r\<rparr>) (rooms st'), roles r)"
      using swapRoomRoles_two [OF rm' _ ab, of "opposite ra" "opposite rb"] pl la lb restore
      by simp
    moreover have "AList.update code (r\<lparr>roles := rl\<rparr>\<lparr>roles := roles r\<rparr>) (rooms st') = rooms st"
      using rm by (simp add: st'_def update_triv)
    ultimately show ?thesis by simp
  qed
  have ms': "s \<in> set (players (r\<lparr>roles := rl\<rparr>))" using ms by simp
  have "action st' s payload =
      Inr (st'\<lparr>rooms := rooms st\<rparr>,
           [(ToChannel code, RolesUpdated code (roles r)), (ToChannel code, ActionMsg restart)])"
    by (rule action_swap [OF nm sw rm' ms' sw2])
  moreover have "st'\<lparr>rooms := rooms st\<rparr> = st"
    by (simp add: st'_def)
  ultimately have second: "action st' s payload =
      Inr (st, [(ToChannel code, RolesUpdated code (roles r)), (ToChannel code, ActionMsg restart)])"
    by simp
  have deliv: "inbox st' [(ToChannel code, RolesUpdated code rl), (ToChannel code, ActionMsg restart)] p =
                [RolesUpdated code rl, ActionMsg restart]"
    if "p = a \<or> p = b" and "connected st p" for p
  proof -
    from that(1) pl have "p \<in> set (players r)" by auto
    with isb rm that(2) have "(code, p) \<in> set (channels st)"
      by (simp add: inv_subs_def)
    then show ?thesis by (simp add: inbox_def st'_def)
  qed
  have "rooms st' = AList.update code (r\<lparr>roles := rl\<rparr>) (rooms st)" and "channels st' = channels st"
    by (simp_all add: st'_def)
  with first flipped second deliv show ?thesis by blast
qed

text \<open>The witness: Alice swaps sides with Bob, twice.\<close>

theorem swap_sides_exchanges_witness:
  "run init [Connect alice, Connect bob, CreateRoom alice [''0.ab3kxyz''],
             JoinRoom bob (JStr '' ab3k '')] = Some paired \<and>
   action paired alice (swap_sides ''ab3k'') =
     Inr (swapped,
          [(ToChannel ''AB3K'', RolesUpdated ''AB3K'' [(alice, Black), (bob, White)]),
           (ToChannel ''AB3K'', ActionMsg restart)]) \<and>
   action swapped alice (swap_sides ''ab3k'') =
     Inr (paired,
          [(ToChannel ''AB3K'', RolesUpdated ''AB3K'' [(alice, White), (bob, Black)]),
           (ToChannel ''AB3K'', ActionMsg restart)]) \<and>
   inbox swapped
     [(ToChannel ''AB3K'', RolesUpdated ''AB3K'' [(alice, Black), (bob, White)]),
      (ToChannel ''AB3K'', ActionMsg restart)] bob =
     [RolesUpdated ''AB3K'' [(alice, Black), (bob, White)], ActionMsg restart]"
proof -
  have n: "names_room (swap_sides ''ab3k'') ''AB3K''" and s: "is_swap_sides (swap_sides ''ab3k'')"
    by code_simp+
  have m: "map_of (rooms paired) ''AB3K'' =
             Some \<lparr>hostId = alice, players = [alice, bob], roles = [(alice, White), (bob, Black)]\<rparr>"
    by (simp add: paired_def)
  have ab: "alice \<noteq> bob" by code_simp
  have cb: "connected paired bob" by code_simp
  have e: "action paired alice (swap_sides ''ab3k'') =
     Inr (swapped,
          [(ToChannel ''AB3K'', RolesUpdated ''AB3K'' [(alice, Black), (bob, White)]),
           (ToChannel ''AB3K'', ActionMsg restart)])"
    by code_simp
  have pl: "players \<lparr>hostId = alice, players = [alice, bob],
                      roles = [(alice, White), (bob, Black)]\<rparr> = [alice, bob]"
    by simp
  from swap_sides_exchanges [OF run_paired n s m pl ab, of alice]
  obtain rl st' where
    1: "action paired alice (swap_sides ''ab3k'') =
          Inr (st', [(ToChannel ''AB3K'', RolesUpdated ''AB3K'' rl), (ToChannel ''AB3K'', ActionMsg restart)])"
    and 2: "action st' alice (swap_sides ''ab3k'') =
          Inr (paired, [(ToChannel ''AB3K'',
                 RolesUpdated ''AB3K'' (roles \<lparr>hostId = alice, players = [alice, bob],
                    roles = [(alice, White), (bob, Black)]\<rparr>)),
               (ToChannel ''AB3K'', ActionMsg restart)])"
    and 3: "\<forall>p. (p = alice \<or> p = bob) \<and> connected paired p \<longrightarrow>
              inbox st' [(ToChannel ''AB3K'', RolesUpdated ''AB3K'' rl), (ToChannel ''AB3K'', ActionMsg restart)] p =
                [RolesUpdated ''AB3K'' rl, ActionMsg restart]"
    by auto
  from 1 e have st': "st' = swapped" and rl: "rl = [(alice, Black), (bob, White)]"
    by simp_all
  from 3 cb have "inbox st' [(ToChannel ''AB3K'', RolesUpdated ''AB3K'' rl), (ToChannel ''AB3K'', ActionMsg restart)] bob =
                [RolesUpdated ''AB3K'' rl, ActionMsg restart]"
    by blast
  with 2 e run_paired show ?thesis
    unfolding st' rl by simp
qed

text \<open>
  C2 as stated fails for a room whose two entries are one socket: \<^verbatim>\<open>swapRoomRoles\<close>
  flips the role of the first entry and then of the second, which is the same key, so
  Alice's \<^verbatim>\<open>"black"\<close> is \<^verbatim>\<open>"black"\<close> again after the swap.
\<close>

theorem swap_sides_exchanges_counterexample:
  "run init [Connect alice, CreateRoom alice [''0.ab3kxyz''], JoinRoom alice (JStr ''AB3K'')] =
     Some selfjoined \<and>
   map_of (rooms selfjoined) ''AB3K'' =
     Some \<lparr>hostId = alice, players = [alice, alice], roles = [(alice, Black)]\<rparr> \<and>
   action selfjoined alice (swap_sides ''AB3K'') =
     Inr (selfjoined,
          [(ToChannel ''AB3K'', RolesUpdated ''AB3K'' [(alice, Black)]),
           (ToChannel ''AB3K'', ActionMsg restart)]) \<and>
   map_of [(alice, Black)] alice \<noteq> Some (opposite Black)"
  by code_simp

text \<open>
  C3. The run in which Alice creates a room, Bob joins, Alice swaps sides and Bob
  leaves ends with Alice alone and \<^verbatim>\<open>"black"\<close>. Carol's \<^verbatim>\<open>join-room\<close> then succeeds with
  \<^verbatim>\<open>"black"\<close> for Carol too: nobody holds \<^verbatim>\<open>"white"\<close>, and the \<^verbatim>\<open>room-ready\<close> message says
  so to both.
\<close>

theorem join_after_swap_and_leave:
  "run init [Connect alice, Connect bob, Connect carol, CreateRoom alice [''0.ab3kxyz''],
             JoinRoom bob (JStr ''ab3k''), Action alice (swap_sides ''AB3K''),
             Disconnect bob] = Some left_black \<and>
   join_room left_black carol (JStr ''ab3k'') =
     Inr (both_black,
          [(ToSocket carol, RoomJoined ''AB3K'' Black),
           (ToChannel alice, OpponentJoined ''AB3K''),
           (ToChannel ''AB3K'', RoomReady ''AB3K'' [(alice, Black), (carol, Black)])]) \<and>
   holders \<lparr>hostId = alice, players = [alice, carol], roles = [(alice, Black), (carol, Black)]\<rparr>
     White = [] \<and>
   \<not> each_role_once \<lparr>hostId = alice, players = [alice, carol],
                      roles = [(alice, Black), (carol, Black)]\<rparr>"
  by code_simp

text \<open>
  C4. A \<^verbatim>\<open>join-room\<close> whose normalized code names no room, or a room that already has
  two players (the handler tests \<^verbatim>\<open>players.length >= 2\<close>), emits the error
  \<^verbatim>\<open>"Room unavailable"\<close> to the requesting socket and to no other, and returns the state
  it was given: every room and every channel is unchanged.
\<close>

theorem join_unavailable:
  assumes "norm_code payload = Inr code"
    and "map_of (rooms st) code = None \<or>
         (\<exists>r. map_of (rooms st) code = Some r \<and> 2 \<le> length (players r))"
  shows "join_room st s payload = Inr (st, [(ToSocket s, RoomError ''Room unavailable'')]) \<and>
         (\<forall>p. inbox st [(ToSocket s, RoomError ''Room unavailable'')] p =
               (if p = s then [RoomError ''Room unavailable''] else []))"
  using assms by (auto simp: join_room_def inbox_socket)

text \<open>
  The witness: Carol asks for Alice and Bob's full room, and then sends no code at all
  (the empty code names no room).
\<close>

theorem join_unavailable_witness:
  "norm_code (JStr ''ab3k'') = Inr ''AB3K'' \<and>
   join_room paired carol (JStr ''ab3k'') =
     Inr (paired, [(ToSocket carol, RoomError ''Room unavailable'')]) \<and>
   norm_code JUndefined = Inr [] \<and>
   join_room paired carol JUndefined =
     Inr (paired, [(ToSocket carol, RoomError ''Room unavailable'')])"
proof -
  have n1: "norm_code (JStr ''ab3k'') = Inr ''AB3K''" by code_simp
  have n2: "norm_code JUndefined = Inr []" by code_simp
  have full: "map_of (rooms paired) ''AB3K'' = None \<or>
     (\<exists>r. map_of (rooms paired) ''AB3K'' = Some r \<and> 2 \<le> length (players r))"
    by (simp add: paired_def)
  have none: "map_of (rooms paired) [] = None \<or>
     (\<exists>r. map_of (rooms paired) [] = Some r \<and> 2 \<le> length (players r))"
    by (simp add: paired_def)
  show ?thesis
    using n1 n2 join_unavailable [OF n1 full, of carol] join_unavailable [OF n2 none, of carol]
    by simp
qed

text \<open>
  C5. In a state of a run, a \<^verbatim>\<open>swap-sides\<close> action from a connected socket listed in a
  room whose \<^verbatim>\<open>players\<close> does not have exactly two entries changes nothing and emits one
  error, addressed to the channel of the sender's own id: the sender receives it and no
  other socket receives anything.
\<close>

theorem swap_needs_two:
  assumes reach: "run init evs = Some st" and con: "connected st s"
    and nm: "names_room payload code" and sw: "is_swap_sides payload"
    and rm: "map_of (rooms st) code = Some r" and mem: "s \<in> set (players r)"
    and two: "length (players r) \<noteq> 2"
  shows "action st s payload =
           Inr (st, [(ToChannel s, RoomError ''Need 2 players to swap sides'')]) \<and>
         (\<forall>p. inbox st [(ToChannel s, RoomError ''Need 2 players to swap sides'')] p =
               (if p = s then [RoomError ''Need 2 players to swap sides''] else []))"
proof -
  have "swapRoomRoles (rooms st) code = None"
    using rm two by (auto simp: swapRoomRoles_def split: list.splits)
  then have "action st s payload =
           Inr (st, [(ToChannel s, RoomError ''Need 2 players to swap sides'')])"
    using nm sw rm mem by (simp add: action_def names_room_def is_swap_sides_def)
  moreover have "\<And>p. (s, p) \<in> set (channels st) \<longleftrightarrow> p = s"
    using reachable_inv [OF reach] con by (rule own_channel)
  ultimately show ?thesis
    by (simp add: inbox_channel)
qed

text \<open>The witness: Alice, alone in her room, asks to swap sides; Bob is connected.\<close>

theorem swap_needs_two_witness:
  "run init [Connect alice, Connect bob, CreateRoom alice [''0.ab3kxyz'']] = Some hosted \<and>
   action hosted alice (swap_sides ''ab3k'') =
     Inr (hosted, [(ToChannel alice, RoomError ''Need 2 players to swap sides'')]) \<and>
   inbox hosted [(ToChannel alice, RoomError ''Need 2 players to swap sides'')] alice =
     [RoomError ''Need 2 players to swap sides''] \<and>
   inbox hosted [(ToChannel alice, RoomError ''Need 2 players to swap sides'')] bob = []"
proof -
  have c: "connected hosted alice" by code_simp
  have n: "names_room (swap_sides ''ab3k'') ''AB3K''" by code_simp
  have s: "is_swap_sides (swap_sides ''ab3k'')" by code_simp
  have m: "map_of (rooms hosted) ''AB3K'' =
             Some \<lparr>hostId = alice, players = [alice], roles = [(alice, White)]\<rparr>"
    by (simp add: hosted_def)
  have ab: "bob \<noteq> alice" by code_simp
  show ?thesis
    using swap_needs_two [OF run_hosted c n s m] ab run_hosted by simp
qed

text \<open>
  C6, as amended. In a state of a run, let \<^verbatim>\<open>getRoomOfSocket\<close> find a room with a
  non-empty code for the socket that disconnects: the first room, in the order of
  \<^verbatim>\<open>Object.keys\<close>, that lists it. The socket is taken out of that room's \<^verbatim>\<open>players\<close> and
  its entry out of the room's \<^verbatim>\<open>roles\<close>; every other room is left as it is; one
  \<^verbatim>\<open>opponent-left\<close> is emitted to the room's channel but for the leaving socket. If no
  player remains, the room is deleted and a \<^verbatim>\<open>join-room\<close> for its code gets
  \<^verbatim>\<open>"Room unavailable"\<close>. Otherwise exactly one player remains, the room persists with
  that player, who is the host if the leaving socket was, and who, if connected,
  receives exactly the one \<^verbatim>\<open>opponent-left\<close>.
\<close>

theorem disconnect_member:
  assumes reach: "run init evs = Some st"
    and found: "getRoomOfSocket (rooms st) s = Some code" and ne: "code \<noteq> []"
  shows "\<exists>r st'.
           map_of (rooms st) code = Some r \<and> s \<in> set (players r) \<and>
           disconnect st s = (st', [(ToChannelExcept code s, OpponentLeft code)]) \<and>
           (\<forall>c. c \<noteq> code \<longrightarrow> map_of (rooms st') c = map_of (rooms st) c) \<and>
           (if filter (\<lambda>p. p \<noteq> s) (players r) = []
            then map_of (rooms st') code = None \<and>
                 (\<forall>j v. norm_code v = Inr code \<longrightarrow>
                    join_room st' j v = Inr (st', [(ToSocket j, RoomError ''Room unavailable'')]))
            else \<exists>p. filter (\<lambda>p. p \<noteq> s) (players r) = [p] \<and> p \<noteq> s \<and>
                   map_of (rooms st') code =
                     Some \<lparr>hostId = (if hostId r = s then p else hostId r), players = [p],
                           roles = AList.delete s (roles r)\<rparr> \<and>
                   map_of (AList.delete s (roles r)) s = None \<and>
                   (connected st p \<longrightarrow>
                      inbox st' [(ToChannelExcept code s, OpponentLeft code)] p = [OpponentLeft code]))"
proof -
  from reachable_inv [OF reach] have ir: "inv_rooms st" and isb: "inv_subs st"
    by (simp_all add: state_ok_def)
  from getRoomOfSocket_Some [OF found] obtain r where
    rm: "map_of (rooms st) code = Some r" and mem: "s \<in> set (players r)"
    by blast
  from ir rm have ok: "room_ok r" by (simp add: inv_rooms_def)
  let ?ps = "filter (\<lambda>p. p \<noteq> s) (players r)"
  let ?r' = "\<lparr>hostId = (if hostId r = s then hd ?ps else hostId r), players = ?ps,
             roles = AList.delete s (roles r)\<rparr>"
  define st' where "st' = (socket_leave_all st s)\<lparr>rooms :=
     (if ?ps = [] then AList.delete code (rooms st) else AList.update code ?r' (rooms st))\<rparr>"
  have d: "disconnect st s = (st', [(ToChannelExcept code s, OpponentLeft code)])"
    unfolding st'_def by (rule disconnect_room [OF found ne rm])
  have others: "\<forall>c. c \<noteq> code \<longrightarrow> map_of (rooms st') c = map_of (rooms st) c"
    by (simp add: st'_def update_conv' delete_conv')
  have gone: "map_of (AList.delete s (roles r)) s = None"
    by (simp add: delete_conv')
  have last: "if ?ps = []
            then map_of (rooms st') code = None \<and>
                 (\<forall>j v. norm_code v = Inr code \<longrightarrow>
                    join_room st' j v = Inr (st', [(ToSocket j, RoomError ''Room unavailable'')]))
            else \<exists>p. ?ps = [p] \<and> p \<noteq> s \<and>
                   map_of (rooms st') code =
                     Some \<lparr>hostId = (if hostId r = s then p else hostId r), players = [p],
                           roles = AList.delete s (roles r)\<rparr> \<and>
                   map_of (AList.delete s (roles r)) s = None \<and>
                   (connected st p \<longrightarrow>
                      inbox st' [(ToChannelExcept code s, OpponentLeft code)] p = [OpponentLeft code])"
  proof (cases "?ps = []")
    case True
    then have "map_of (rooms st') code = None"
      by (simp add: st'_def delete_conv')
    then show ?thesis
      using True by (simp add: join_room_def)
  next
    case False
    have "length ?ps < length (players r)"
      using mem by (simp add: length_filter_less)
    moreover have "length (players r) \<le> 2"
      using ok by (auto simp: room_ok_def)
    moreover have "length ?ps \<noteq> 0"
      using False by simp
    ultimately have "length ?ps = 1"
      by linarith
    then obtain p where p: "?ps = [p]"
      by (cases ?ps) auto
    then have "p \<in> set ?ps" by simp
    then have ps: "p \<noteq> s" and pm: "p \<in> set (players r)" by simp_all
    have "map_of (rooms st') code =
            Some \<lparr>hostId = (if hostId r = s then p else hostId r), players = [p],
                  roles = AList.delete s (roles r)\<rparr>"
      using False p by (simp add: st'_def update_conv')
    moreover have "inbox st' [(ToChannelExcept code s, OpponentLeft code)] p = [OpponentLeft code]"
      if "connected st p"
    proof -
      from isb rm pm that have "(code, p) \<in> set (channels st)"
        by (simp add: inv_subs_def)
      with ps show ?thesis by (simp add: inbox_except st'_def)
    qed
    ultimately show ?thesis
      using False p ps gone by simp
  qed
  from rm mem d others last show ?thesis by blast
qed

text \<open>The witness: Alice leaves the paired room, then Bob leaves, then Carol tries to join.\<close>

theorem disconnect_member_witness:
  "getRoomOfSocket (rooms paired) alice = Some ''AB3K'' \<and>
   disconnect paired alice = (bob_alone, [(ToChannelExcept ''AB3K'' alice, OpponentLeft ''AB3K'')]) \<and>
   inbox bob_alone [(ToChannelExcept ''AB3K'' alice, OpponentLeft ''AB3K'')] bob =
     [OpponentLeft ''AB3K''] \<and>
   getRoomOfSocket (rooms bob_alone) bob = Some ''AB3K'' \<and>
   disconnect bob_alone bob = (init, [(ToChannelExcept ''AB3K'' bob, OpponentLeft ''AB3K'')]) \<and>
   join_room init carol (JStr ''ab3k'') = Inr (init, [(ToSocket carol, RoomError ''Room unavailable'')])"
proof -
  have g: "getRoomOfSocket (rooms paired) alice = Some ''AB3K''" by code_simp
  have ne: "''AB3K'' \<noteq> []" by simp
  have e: "disconnect paired alice =
             (bob_alone, [(ToChannelExcept ''AB3K'' alice, OpponentLeft ''AB3K'')])"
    by code_simp
  have ps: "filter (\<lambda>p. p \<noteq> alice) [alice, bob] = [bob]" by code_simp
  have cb: "connected paired bob" by code_simp
  have m: "map_of (rooms paired) ''AB3K'' =
             Some \<lparr>hostId = alice, players = [alice, bob], roles = [(alice, White), (bob, Black)]\<rparr>"
    by (simp add: paired_def)
  from disconnect_member [OF run_paired g ne] m e ps cb
  have 1: "inbox bob_alone [(ToChannelExcept ''AB3K'' alice, OpponentLeft ''AB3K'')] bob =
     [OpponentLeft ''AB3K'']"
    by auto
  have r2: "run init [Connect alice, Connect bob, CreateRoom alice [''0.ab3kxyz''],
             JoinRoom bob (JStr '' ab3k ''), Disconnect alice] = Some bob_alone"
    by code_simp
  have g2: "getRoomOfSocket (rooms bob_alone) bob = Some ''AB3K''" by code_simp
  have e2: "disconnect bob_alone bob = (init, [(ToChannelExcept ''AB3K'' bob, OpponentLeft ''AB3K'')])"
    by code_simp
  have ps2: "filter (\<lambda>p. p \<noteq> bob) [bob] = []" by simp
  have m2: "map_of (rooms bob_alone) ''AB3K'' =
             Some \<lparr>hostId = bob, players = [bob], roles = [(bob, Black)]\<rparr>"
    by (simp add: bob_alone_def)
  have n: "norm_code (JStr ''ab3k'') = Inr ''AB3K''" by code_simp
  from disconnect_member [OF r2 g2 ne] m2 e2 ps2 n
  have 2: "join_room init carol (JStr ''ab3k'') = Inr (init, [(ToSocket carol, RoomError ''Room unavailable'')])"
    by auto
  from g e 1 g2 e2 2 show ?thesis by simp
qed

text \<open>
  C6 as stated fails for a socket listed in two rooms: the handler cleans the one room
  \<^verbatim>\<open>getRoomOfSocket\<close> returns. Bob has created \<^verbatim>\<open>ZZ9Q\<close> and then joined Alice's \<^verbatim>\<open>AB3K\<close>.
  His disconnect deletes \<^verbatim>\<open>ZZ9Q\<close> and leaves \<^verbatim>\<open>AB3K\<close> as it was, Bob still among its
  players and in its roles; the one \<^verbatim>\<open>opponent-left\<close> goes to the channel of \<^verbatim>\<open>ZZ9Q\<close>,
  and Alice, connected and in \<^verbatim>\<open>AB3K\<close>, receives nothing.
\<close>

theorem disconnect_member_counterexample:
  "run init [Connect alice, Connect bob, CreateRoom bob [''0.zz9q1''],
             CreateRoom alice [''0.ab3kxyz''], JoinRoom bob (JStr ''ab3k'')] = Some two_rooms \<and>
   map_of (rooms two_rooms) ''AB3K'' =
     Some \<lparr>hostId = alice, players = [alice, bob], roles = [(alice, White), (bob, Black)]\<rparr> \<and>
   disconnect two_rooms bob =
     (\<lparr>rooms = [(''AB3K'', \<lparr>hostId = alice, players = [alice, bob],
                               roles = [(alice, White), (bob, Black)]\<rparr>)],
       channels = [(''AB3K'', alice), (alice, alice)]\<rparr>,
      [(ToChannelExcept ''ZZ9Q'' bob, OpponentLeft ''ZZ9Q'')]) \<and>
   inbox (fst (disconnect two_rooms bob)) (snd (disconnect two_rooms bob)) alice = []"
  by code_simp

text \<open>
  C7. Not every \<^verbatim>\<open>action\<close> event whose type is not \<^verbatim>\<open>swap-sides\<close> is relayed or
  silently dropped: the handler throws a TypeError, in every state and for every
  socket, on an event sent with no argument or with \<^verbatim>\<open>null\<close> (the parameter cannot be
  destructured, line 91) and on one whose \<^verbatim>\<open>roomCode\<close> is read from the JSON text
  \<^verbatim>\<open>{"toString": 1}\<close> (\<^verbatim>\<open>String(roomCode || "")\<close> throws, line 92). None of the three
  has the type \<^verbatim>\<open>swap-sides\<close>.
\<close>

theorem action_throws:
  "action st s JUndefined = Inl TypeError \<and>
   action st s JNull = Inl TypeError \<and>
   action st s (JObj [(''roomCode'', JObj [(''toString'', JNum 1)]),
                      (''action'', pawn_move)]) = Inl TypeError \<and>
   \<not> is_swap_sides JUndefined \<and> \<not> is_swap_sides JNull \<and>
   \<not> is_swap_sides (JObj [(''roomCode'', JObj [(''toString'', JNum 1)]),
                            (''action'', pawn_move)])"
  by (simp add: action_def norm_code_def is_swap_sides_def action_type_def pawn_move_def)



text \<open>
  C9. Not every code has four characters: the random number 0.5 prints as \<^verbatim>\<open>"0.i"\<close> in
  base 36 and gives the code \<^verbatim>\<open>"I"\<close>, which \<^verbatim>\<open>create-room\<close> then registers; the number 0
  prints as \<^verbatim>\<open>"0"\<close> and gives the empty code.
\<close>

theorem makeCode_short:
  "is_random36 ''0.i'' \<and> makeCode 4 ''0.i'' = ''I'' \<and>
   is_random36 ''0'' \<and> makeCode 4 ''0'' = [] \<and>
   pick_code [] [''0.i''] = Some ''I''"
  by code_simp

text \<open>
  C10. The handler of \<^verbatim>\<open>join-room\<close> throws on a payload read from the JSON text
  \<^verbatim>\<open>{"toString": 1}\<close>: \<^verbatim>\<open>String(code || "")\<close> raises a TypeError, in every state and
  for every socket.
\<close>

theorem join_room_throws:
  "norm_code (JObj [(''toString'', JNum 1)]) = Inl TypeError \<and>
   join_room st s (JObj [(''toString'', JNum 1)]) = Inl TypeError"
  by (simp add: join_room_def norm_code_def)

end
